theory Spec2Isabelle
  imports Main
begin

section \<open>Python values and ordered dictionaries\<close>

text \<open>
  The attribute values a module instance carries. Python decides the truth of a value with
  \<open>bool(v)\<close>: \<open>None\<close>, \<open>False\<close>, \<open>0\<close>, the empty string and the empty list are falsy.
\<close>

datatype pyval = PNone | PBool bool | PInt int | PStr string | PList "pyval list"

fun truthy :: "pyval \<Rightarrow> bool" where
  "truthy PNone = False"
| "truthy (PBool b) = b"
| "truthy (PInt i) = (i \<noteq> 0)"
| "truthy (PStr s) = (s \<noteq> [])"
| "truthy (PList vs) = (vs \<noteq> [])"

text \<open>
  A Python \<open>dict\<close> / \<open>OrderedDict\<close> keeps its keys in insertion order, and \<open>d[k] = v\<close> on a
  key that is already there replaces the value and leaves the key where it was.
\<close>

type_synonym 'v odict = "(string \<times> 'v) list"

fun dict_set :: "string \<Rightarrow> 'v \<Rightarrow> 'v odict \<Rightarrow> 'v odict" where
  "dict_set k v [] = [(k, v)]"
| "dict_set k v ((k', v') # d) = (if k' = k then (k, v) # d else (k', v') # dict_set k v d)"

section \<open>Modules of the host framework\<close>

text \<open>
  The parser reads four things off a module: the name of its class, its attributes
  (\<open>hasattr\<close> / \<open>getattr\<close>), its own parameters (\<open>named_parameters(recurse=False)\<close>, each a
  tensor with a shape) and its direct children (\<open>named_children()\<close>), the last two in the
  order the framework yields them.
\<close>

datatype tensor = Tensor (shape: "nat list")

datatype module =
  Module (class_name: string) (attr_dict: "pyval odict")
         (named_parameters: "(string \<times> tensor) list") (named_children: "(string \<times> module) list")

definition hasattr :: "module \<Rightarrow> string \<Rightarrow> bool" where
  "hasattr layer attr = (map_of (attr_dict layer) attr \<noteq> None)"

definition getattr :: "module \<Rightarrow> string \<Rightarrow> pyval option" where
  "getattr layer attr = map_of (attr_dict layer) attr"

section \<open>The output: LayerNode\<close>

datatype layer_node =
  LayerNode (layer_name: string) (layer_type: string)
            (parameters: "nat list odict") (attributes: "pyval odict")
            (is_residual_block: bool) (residual_connection: "residual_connection option")
            (children: "layer_node list")
and residual_connection =
  ResidualConnection (input_source: string) (fusion_type: pyval) (adjust_layer: "layer_node option")

section \<open>The parser (utils/model\_parser.py)\<close>

text \<open>\<open>_get_layer_attributes\<close>: the loop over \<open>self.attributes_keep\<close>, with \<open>attrs\<close> as the
  accumulated OrderedDict.\<close>

fun get_layer_attributes_loop :: "module \<Rightarrow> string list \<Rightarrow> pyval odict \<Rightarrow> pyval odict" where
  "get_layer_attributes_loop layer [] attrs = attrs"
| "get_layer_attributes_loop layer (attr # rest) attrs =
     (case getattr layer attr of
        Some v \<Rightarrow> get_layer_attributes_loop layer rest (dict_set attr v attrs)
      | None \<Rightarrow> get_layer_attributes_loop layer rest attrs)"

definition get_layer_attributes :: "string list \<Rightarrow> module \<Rightarrow> pyval odict" where
  "get_layer_attributes attributes_keep layer = get_layer_attributes_loop layer attributes_keep []"

text \<open>The dict comprehension \<open>{k: list(v.shape) for k, v in layer.named_parameters(recurse=False)}\<close>.\<close>

fun parameter_shapes :: "(string \<times> tensor) list \<Rightarrow> nat list odict \<Rightarrow> nat list odict" where
  "parameter_shapes [] d = d"
| "parameter_shapes ((k, v) # rest) d = parameter_shapes rest (dict_set k (shape v) d)"

text \<open>\<open>_get_layer_info\<close> fills the first four keys of the node.\<close>

record layer_info =
  info_layer_name :: string
  info_layer_type :: string
  info_parameters :: "nat list odict"
  info_attributes :: "pyval odict"

definition get_layer_info :: "string list \<Rightarrow> module \<Rightarrow> string \<Rightarrow> layer_info" where
  "get_layer_info attributes_keep layer name =
     \<lparr> info_layer_name = name,
       info_layer_type = class_name layer,
       info_parameters = parameter_shapes (named_parameters layer) [],
       info_attributes = get_layer_attributes attributes_keep layer \<rparr>"

text \<open>\<open>hasattr(layer, 'residual') and layer.residual\<close>\<close>

definition is_residual :: "module \<Rightarrow> bool" where
  "is_residual layer = (case getattr layer ''residual'' of None \<Rightarrow> False | Some v \<Rightarrow> truthy v)"

text \<open>\<open>parent_input or "block_input"\<close>: Python's \<open>or\<close> yields its right operand when the
  left one is falsy, and \<open>parent_input\<close> is \<open>None\<close> or a string.\<close>

definition input_source_of :: "string option \<Rightarrow> string" where
  "input_source_of parent_input =
     (case parent_input of
        None \<Rightarrow> ''block_input''
      | Some s \<Rightarrow> if s = [] then ''block_input'' else s)"

text \<open>\<open>layer.fusion_type if hasattr(layer, 'fusion_type') else "add"\<close>\<close>

definition fusion_type_of :: "module \<Rightarrow> pyval" where
  "fusion_type_of layer =
     (case getattr layer ''fusion_type'' of Some v \<Rightarrow> v | None \<Rightarrow> PStr ''add'')"

text \<open>
  \<open>_parse_layers\<close>. \<open>residual_loop\<close> is the \<open>for\<close> loop of the residual branch, carrying
  \<open>main_branch\<close> and the \<open>adjust_layer\<close> slot of the connection; \<open>plain_children\<close> is the list
  comprehension of the other branch.
\<close>

fun parse_layers :: "string list \<Rightarrow> module \<Rightarrow> string \<Rightarrow> string option \<Rightarrow> layer_node"
and residual_loop :: "string list \<Rightarrow> string \<Rightarrow> string option \<Rightarrow> (string \<times> module) list
      \<Rightarrow> layer_node list \<Rightarrow> layer_node option \<Rightarrow> layer_node list \<times> layer_node option"
and plain_children :: "string list \<Rightarrow> string \<Rightarrow> (string \<times> module) list \<Rightarrow> layer_node list"
where
  "parse_layers keep (Module c a ps kids) name parent_input =
     (let info = get_layer_info keep (Module c a ps kids) name in
      if is_residual (Module c a ps kids) then
        (case residual_loop keep name parent_input kids [] None of
           (main_branch, adjust) \<Rightarrow>
             LayerNode (info_layer_name info) (info_layer_type info)
                       (info_parameters info) (info_attributes info)
                       True
                       (Some (ResidualConnection (input_source_of parent_input)
                                                 (fusion_type_of (Module c a ps kids))
                                                 adjust))
                       main_branch)
      else
        LayerNode (info_layer_name info) (info_layer_type info)
                  (info_parameters info) (info_attributes info)
                  False None
                  (plain_children keep name kids))"
| "residual_loop keep name parent_input [] main_branch adjust = (main_branch, adjust)"
| "residual_loop keep name parent_input ((child_name, child_module) # rest) main_branch adjust =
     (if child_name = ''adjust'' then
        residual_loop keep name parent_input rest main_branch
          (Some (parse_layers keep child_module child_name parent_input))
      else
        residual_loop keep name parent_input rest
          (main_branch @ [parse_layers keep child_module child_name (Some name)]) adjust)"
| "plain_children keep name [] = []"
| "plain_children keep name ((child_name, child) # rest) =
     parse_layers keep child child_name (Some name) # plain_children keep name rest"

text \<open>
  \<open>__call__\<close>: the argument is any Python object; only a module instance passes the
  \<open>isinstance\<close> check. \<open>_parse_layers\<close> is then called with its defaults, \<open>name = "root"\<close>
  and \<open>parent_input = None\<close>.
\<close>

datatype pyerror = TypeError | KeyError | OSError | TOMLDecodeError | OtherError string

datatype pyobject = ModuleInstance module | OtherObject pyval

fun parser_call :: "string list \<Rightarrow> pyobject \<Rightarrow> pyerror + layer_node" where
  "parser_call keep (OtherObject v) = Inl TypeError"
| "parser_call keep (ModuleInstance model) = Inr (parse_layers keep model ''root'' None)"

section \<open>Vocabulary for the properties\<close>

text \<open>Every node of a parsed tree: the node, the nodes under its connection's
  \<open>adjust_layer\<close>, and the nodes under its children.\<close>

fun all_nodes :: "layer_node \<Rightarrow> layer_node list"
and connection_nodes :: "residual_connection \<Rightarrow> layer_node list" where
  "all_nodes (LayerNode n t ps as r rc ch) =
     LayerNode n t ps as r rc ch #
       (case rc of None \<Rightarrow> [] | Some c \<Rightarrow> connection_nodes c) @ concat (map all_nodes ch)"
| "connection_nodes (ResidualConnection s f adj) =
     (case adj of None \<Rightarrow> [] | Some n \<Rightarrow> all_nodes n)"

text \<open>Every module of a module tree: the module and all its descendants.\<close>

fun all_modules :: "module \<Rightarrow> module list" where
  "all_modules (Module c a ps kids) =
     Module c a ps kids # concat (map (\<lambda>(n, child). all_modules child) kids)"

text \<open>The elements of a list in the order of their first occurrence, each once.\<close>

fun first_occurrences :: "'a list \<Rightarrow> 'a list \<Rightarrow> 'a list" where
  "first_occurrences seen [] = []"
| "first_occurrences seen (x # xs) =
     (if x \<in> set seen then first_occurrences seen xs else x # first_occurrences (x # seen) xs)"

text \<open>The main-branch children of a residual block: all but those named \<open>adjust\<close>.\<close>

definition main_branch_of :: "(string \<times> module) list \<Rightarrow> (string \<times> module) list" where
  "main_branch_of kids = filter (\<lambda>(child_name, child). child_name \<noteq> ''adjust'') kids"

section \<open>Constructing the parser (\<open>ModelParser.__init__\<close>)\<close>

text \<open>
  The value \<open>tomllib.load\<close> returns: tables are dictionaries, arrays are lists. Subscripting
  with a string key (\<open>v["keep"]\<close>) succeeds on a dictionary that has the key, raises
  \<open>KeyError\<close> on one that has not, and raises \<open>TypeError\<close> on every other value (the
  scalar kinds left out here, floats and dates, behave as the scalars that are listed).
\<close>

datatype toml =
  TString string | TInteger int | TBoolean bool | TArray "toml list" | TTable "(string \<times> toml) list"

fun subscript :: "toml \<Rightarrow> string \<Rightarrow> pyerror + toml" where
  "subscript (TTable kvs) key = (case map_of kvs key of None \<Rightarrow> Inl KeyError | Some v \<Rightarrow> Inr v)"
| "subscript (TString s) key = Inl TypeError"
| "subscript (TInteger i) key = Inl TypeError"
| "subscript (TBoolean b) key = Inl TypeError"
| "subscript (TArray vs) key = Inl TypeError"

text \<open>The only field \<open>__init__\<close> sets on the parser: the \<open>keep\<close> value as the document has
  it. The configuration format makes it an array of attribute names, and the functions of
  the parser above take it as that list of names, \<open>keep\<close>.\<close>

record model_parser =
  attributes_keep :: toml

text \<open>
  \<open>__init__\<close>. The two library calls are parameters: \<open>open_rb\<close> stands for
  \<open>open(config_path, "rb")\<close> (the file's bytes, or the error raised), \<open>tomllib_load\<close> for
  \<open>tomllib.load\<close> (the parsed document, or the error raised). An exception leaves the
  constructor at once, so no parser is returned.
\<close>

definition ModelParser_init ::
  "(string \<Rightarrow> pyerror + string) \<Rightarrow> (string \<Rightarrow> pyerror + toml) \<Rightarrow> string \<Rightarrow> pyerror + model_parser"
where
  "ModelParser_init open_rb tomllib_load config_path =
     (case open_rb config_path of
        Inl e \<Rightarrow> Inl e
      | Inr f \<Rightarrow>
          (case tomllib_load f of
             Inl e \<Rightarrow> Inl e
           | Inr config \<Rightarrow>
               (case subscript config ''attributes'' of
                  Inl e \<Rightarrow> Inl e
                | Inr table \<Rightarrow>
                    (case subscript table ''keep'' of
                       Inl e \<Rightarrow> Inl e
                     | Inr keep \<Rightarrow> Inr \<lparr> attributes_keep = keep \<rparr>))))"

text \<open>The \<open>keep\<close> field of the \<open>attributes\<close> table of a configuration document, if it has one.\<close>

fun keep_field :: "toml \<Rightarrow> toml option" where
  "keep_field (TTable kvs) =
     (case map_of kvs ''attributes'' of
        Some (TTable kvs') \<Rightarrow> map_of kvs' ''keep''
      | _ \<Rightarrow> None)"
| "keep_field _ = None"

section \<open>The tagger (decorator/model\_parse\_decorator.py)\<close>

text \<open>
  Classes live in a table; a class object is its index there, so that replacing an entry is
  the in-place modification of that class. A class has one base (the root \<open>object\<close>, the
  framework's \<open>nn.Module\<close>, or an earlier class of the table) and may define its own
  \<open>__init__\<close>. A constructor takes the call's arguments and the instance under
  construction, and returns the instance as it has left it, or the exception it raised.
\<close>

type_synonym call_args = "pyval list"

type_synonym init_fn = "call_args \<Rightarrow> module \<Rightarrow> pyerror + module"

datatype base_class = Object | NNModule | UserClass nat

record pyclass =
  cls_name :: string
  cls_base :: base_class
  cls_init :: "init_fn option"

type_synonym class_table = "pyclass list"

text \<open>\<open>self.attr = value\<close> for a plain value: an entry of the instance's attributes.\<close>

fun setattr :: "module \<Rightarrow> string \<Rightarrow> pyval \<Rightarrow> module" where
  "setattr (Module c a ps kids) attr v = Module c (dict_set attr v a) ps kids"

text \<open>The constructor of the two built-in roots leaves the attributes seen here alone.\<close>

definition builtin_init :: init_fn where
  "builtin_init args self = Inr self"

text \<open>
  \<open>cls.__init__\<close>: the class's own constructor, else the one its base has. A base is
  always an earlier class; an index that is not a class has no attributes.
\<close>

function lookup_init :: "class_table \<Rightarrow> nat \<Rightarrow> init_fn" where
  "lookup_init tbl i =
     (if i < length tbl then
        (case cls_init (tbl ! i) of
           Some f \<Rightarrow> f
         | None \<Rightarrow>
             (case cls_base (tbl ! i) of
                UserClass j \<Rightarrow> if j < i then lookup_init tbl j else builtin_init
              | NNModule \<Rightarrow> builtin_init
              | Object \<Rightarrow> builtin_init))
      else builtin_init)"
  by pat_completeness auto
termination
  by (relation "measure (\<lambda>(tbl, i). i)") auto

text \<open>\<open>issubclass(cls, nn.Module)\<close>, along the chain of bases.\<close>

function issubclass_Module :: "class_table \<Rightarrow> nat \<Rightarrow> bool" where
  "issubclass_Module tbl i =
     (if i < length tbl then
        (case cls_base (tbl ! i) of
           NNModule \<Rightarrow> True
         | Object \<Rightarrow> False
         | UserClass j \<Rightarrow> if j < i then issubclass_Module tbl j else False)
      else False)"
  by pat_completeness auto
termination
  by (relation "measure (\<lambda>(tbl, i). i)") auto

text \<open>\<open>isinstance(obj, cls)\<close> for an instance of class \<open>i\<close>: \<open>i\<close> is \<open>cls\<close> or below it.\<close>

function subclass_of :: "class_table \<Rightarrow> nat \<Rightarrow> nat \<Rightarrow> bool" where
  "subclass_of tbl i cls =
     (if i = cls then True
      else if i < length tbl then
        (case cls_base (tbl ! i) of
           UserClass j \<Rightarrow> if j < i then subclass_of tbl j cls else False
         | NNModule \<Rightarrow> False
         | Object \<Rightarrow> False)
      else False)"
  by pat_completeness auto
termination
  by (relation "measure (\<lambda>(tbl, i, cls). i)") auto

text \<open>\<open>new_init\<close>: the original constructor, then the two assignments. \<open>fusion\<close> is the
  \<open>fusion_type\<close> argument of \<open>residual_block\<close>.\<close>

definition new_init :: "init_fn \<Rightarrow> string \<Rightarrow> init_fn" where
  "new_init original_init fusion args self =
     (case original_init args self of
        Inl e \<Rightarrow> Inl e
      | Inr self' \<Rightarrow>
          Inr (setattr (setattr self' ''residual'' (PBool True)) ''fusion_type'' (PStr fusion)))"

text \<open>
  \<open>decorator(cls)\<close> inside \<open>residual_block(fusion_type)\<close>. \<open>issubclass\<close> raises \<open>TypeError\<close>
  itself when \<open>cls\<close> is not a class. The result is the table after \<open>cls.__init__ = new_init\<close>
  together with the returned \<open>cls\<close>.
\<close>

definition decorator :: "string \<Rightarrow> class_table \<Rightarrow> nat \<Rightarrow> pyerror + (class_table \<times> nat)" where
  "decorator fusion tbl cls =
     (if \<not> issubclass_Module tbl cls then Inl TypeError
      else
        (let original_init = lookup_init tbl cls in
         Inr (tbl[cls := (tbl ! cls)\<lparr> cls_init := Some (new_init original_init fusion) \<rparr>],
              cls)))"

definition residual_block :: "string \<Rightarrow> class_table \<Rightarrow> nat \<Rightarrow> pyerror + (class_table \<times> nat)" where
  "residual_block fusion = decorator fusion"

text \<open>\<open>cls(*args)\<close>: a fresh instance of the class, handed to \<open>cls.__init__\<close>.\<close>

definition instantiate :: "class_table \<Rightarrow> nat \<Rightarrow> call_args \<Rightarrow> pyerror + module" where
  "instantiate tbl cls args =
     (if cls < length tbl then lookup_init tbl cls args (Module (cls_name (tbl ! cls)) [] [] [])
      else Inl TypeError)"

text \<open>A subclass constructor that does some work, calls the constructor \<open>parent_init\<close> it inherits
  from, and does some more work.\<close>

definition chained_init :: "init_fn \<Rightarrow> init_fn \<Rightarrow> init_fn \<Rightarrow> init_fn" where
  "chained_init before parent_init after args self =
     (case before args self of
        Inl e \<Rightarrow> Inl e
      | Inr s1 \<Rightarrow> (case parent_init args s1 of Inl e \<Rightarrow> Inl e | Inr s2 \<Rightarrow> after args s2))"

text \<open>The class table after \<open>decorator(cls)\<close> has run: as the decorator left it, and as it
  was when the decorator raised.\<close>

definition table_after :: "string \<Rightarrow> class_table \<Rightarrow> nat \<Rightarrow> class_table" where
  "table_after fusion tbl cls =
     (case decorator fusion tbl cls of Inl e \<Rightarrow> tbl | Inr (tbl', cls') \<Rightarrow> tbl')"

text \<open>Class \<open>i\<close> is \<open>cls\<close>, or reaches \<open>cls\<close> along bases that define no \<open>__init__\<close> of their
  own: then \<open>i.__init__\<close> is \<open>cls.__init__\<close>.\<close>

function inherits_init :: "class_table \<Rightarrow> nat \<Rightarrow> nat \<Rightarrow> bool" where
  "inherits_init tbl i cls =
     (if i = cls then True
      else if i < length tbl then
        (case cls_init (tbl ! i) of
           Some f \<Rightarrow> False
         | None \<Rightarrow>
             (case cls_base (tbl ! i) of
                UserClass j \<Rightarrow> if j < i then inherits_init tbl j cls else False
              | NNModule \<Rightarrow> False
              | Object \<Rightarrow> False))
      else False)"
  by pat_completeness auto
termination
  by (relation "measure (\<lambda>(tbl, i, cls). i)") auto

section \<open>Examples\<close>

text \<open>A linear layer, a residual block with an adjustment branch that is itself tagged
  residual, and a plain layer with one linear sub-layer.\<close>

definition example_linear :: "nat \<Rightarrow> nat \<Rightarrow> module" where
  "example_linear i out =
     Module ''Linear'' [(''in_features'', PInt (int i)), (''out_features'', PInt (int out))]
       [(''weight'', Tensor [out, i]), (''bias'', Tensor [out])] []"

definition example_adjust :: module where
  "example_adjust =
     Module ''Shortcut'' [(''residual'', PBool True), (''fusion_type'', PStr ''concat'')]
       [(''weight'', Tensor [4, 3, 1, 1])] []"

definition example_block :: module where
  "example_block =
     Module ''ResidualBlock'' [(''residual'', PBool True), (''fusion_type'', PStr ''add'')] []
       [(''main1'', example_linear 10 10), (''adjust'', example_adjust),
        (''main2'', example_linear 10 10)]"

definition example_simple :: module where
  "example_simple =
     Module ''SimpleLayer'' [(''in_features'', PInt 10), (''out_features'', PInt 20)] []
       [(''fc'', example_linear 10 20)]"


text \<open>A plain network of three children, the second one the residual block.\<close>

definition example_net :: module where
  "example_net =
     Module ''Net'' [(''num_classes'', PInt 10)] []
       [(''stem'', example_linear 3 10), (''layer1'', example_block),
        (''fc'', example_linear 10 20)]"

text \<open>A class table with a module class \<open>Block\<close> and a class \<open>Helper\<close> that is no module; a
  constructor for \<open>Block\<close>; a file system and a TOML reader for four configuration paths.\<close>

definition example_init :: init_fn where
  "example_init args self = Inr (setattr self ''in_features'' (PInt 10))"

definition example_classes :: class_table where
  "example_classes =
     [\<lparr> cls_name = ''Block'', cls_base = NNModule, cls_init = Some example_init \<rparr>,
      \<lparr> cls_name = ''Helper'', cls_base = Object, cls_init = None \<rparr>]"

text \<open>The table after \<open>@residual_block("concat") class Block\<close>, then a subclass that inherits
  the constructor and one whose own constructor only calls the framework's.\<close>

definition example_tagged :: class_table where
  "example_tagged =
     table_after ''concat'' example_classes 0 @
       [\<lparr> cls_name = ''Bottleneck'', cls_base = UserClass 0, cls_init = None \<rparr>,
        \<lparr> cls_name = ''Bare'', cls_base = UserClass 0, cls_init = Some builtin_init \<rparr>]"

definition example_open_rb :: "string \<Rightarrow> pyerror + string" where
  "example_open_rb path =
     (if path = ''config/model_parse.toml'' then Inr ''[attributes] keep = [...]''
      else if path = ''config/empty.toml'' then Inr ''''
      else if path = ''config/broken.toml'' then Inr ''[attributes''
      else Inl OSError)"

definition example_tomllib_load :: "string \<Rightarrow> pyerror + toml" where
  "example_tomllib_load f =
     (if f = ''[attributes] keep = [...]'' then
        Inr (TTable [(''attributes'',
               TTable [(''keep'', TArray [TString ''in_features'', TString ''out_features''])])])
      else if f = '''' then Inr (TTable [])
      else Inl TOMLDecodeError)"

section \<open>Lemmas about the parser\<close>

subsection \<open>The two loops of \<open>_parse_layers\<close> in closed form\<close>

lemma residual_loop_eq:
  "residual_loop keep name pi kids mb adj =
     (mb @ map (\<lambda>(n, c). parse_layers keep c n (Some name)) (main_branch_of kids),
      case map_of (rev kids) ''adjust'' of
        None \<Rightarrow> adj
      | Some c \<Rightarrow> Some (parse_layers keep c ''adjust'' pi))"
proof (induction kids arbitrary: mb adj)
  case Nil
  then show ?case by (simp add: main_branch_of_def)
next
  case (Cons k kids)
  obtain n c where k: "k = (n, c)" by (cases k)
  show ?case
    by (simp add: k Cons.IH main_branch_of_def map_add_def split: option.splits)
qed

lemma plain_children_eq:
  "plain_children keep name kids = map (\<lambda>(n, c). parse_layers keep c n (Some name)) kids"
  by (induction kids) auto

lemma parse_layers_residual:
  assumes "is_residual m"
  shows "parse_layers keep m name pi =
     LayerNode name (class_name m) (parameter_shapes (named_parameters m) [])
       (get_layer_attributes keep m) True
       (Some (ResidualConnection (input_source_of pi) (fusion_type_of m)
          (map_option (\<lambda>c. parse_layers keep c ''adjust'' pi)
             (map_of (rev (named_children m)) ''adjust''))))
       (map (\<lambda>(n, c). parse_layers keep c n (Some name)) (main_branch_of (named_children m)))"
  using assms
  by (cases m) (simp add: residual_loop_eq get_layer_info_def split: option.splits)

lemma parse_layers_plain:
  assumes "\<not> is_residual m"
  shows "parse_layers keep m name pi =
     LayerNode name (class_name m) (parameter_shapes (named_parameters m) [])
       (get_layer_attributes keep m) False None
       (map (\<lambda>(n, c). parse_layers keep c n (Some name)) (named_children m))"
  using assms
  by (cases m) (simp add: plain_children_eq get_layer_info_def)

declare parse_layers.simps [simp del]

lemma layer_name_parse_layers: "layer_name (parse_layers keep m name pi) = name"
  by (cases "is_residual m") (simp_all add: parse_layers_residual parse_layers_plain)



lemma module_self_in_all_modules: "m \<in> set (all_modules m)"
  by (cases m) simp

lemma all_nodes_parse_layers:
  "n \<in> set (all_nodes (parse_layers keep m name pi)) \<Longrightarrow>
     \<exists>m' \<in> set (all_modules m). \<exists>name' pi'. n = parse_layers keep m' name' pi'"
proof (induction m arbitrary: name pi n)
  case (Module c a ps kids)
  let ?m = "Module c a ps kids"
  have IH: "\<And>k child name' pi' n'. (k, child) \<in> set kids \<Longrightarrow>
      n' \<in> set (all_nodes (parse_layers keep child name' pi')) \<Longrightarrow>
      \<exists>m' \<in> set (all_modules ?m). \<exists>name'' pi''. n' = parse_layers keep m' name'' pi''"
  proof -
    fix k child name' pi' n'
    assume mem: "(k, child) \<in> set kids"
      and n': "n' \<in> set (all_nodes (parse_layers keep child name' pi'))"
    from Module.IH [OF mem _ n'] obtain m' name'' pi''
      where "m' \<in> set (all_modules child)" "n' = parse_layers keep m' name'' pi''"
      by auto
    with mem show "\<exists>m' \<in> set (all_modules ?m). \<exists>name'' pi''. n' = parse_layers keep m' name'' pi''"
      by force
  qed
  show ?case
  proof (cases "is_residual ?m")
    case False
    from Module.prems have
      "n = parse_layers keep ?m name pi \<or>
       (\<exists>(k, child) \<in> set kids. n \<in> set (all_nodes (parse_layers keep child k (Some name))))"
      by (auto simp: parse_layers_plain [OF False])
    then show ?thesis
    proof
      assume "n = parse_layers keep ?m name pi"
      then show ?thesis using module_self_in_all_modules [of ?m] by blast
    next
      assume "\<exists>(k, child) \<in> set kids. n \<in> set (all_nodes (parse_layers keep child k (Some name)))"
      then show ?thesis using IH by blast
    qed
  next
    case True
    from Module.prems have
      "n = parse_layers keep ?m name pi \<or>
       (\<exists>child. map_of (rev kids) ''adjust'' = Some child \<and>
           n \<in> set (all_nodes (parse_layers keep child ''adjust'' pi))) \<or>
       (\<exists>(k, child) \<in> set kids. n \<in> set (all_nodes (parse_layers keep child k (Some name))))"
      by (auto simp: parse_layers_residual [OF True] main_branch_of_def split: option.splits)
    then consider
        (self) "n = parse_layers keep ?m name pi"
      | (adj) child where "map_of (rev kids) ''adjust'' = Some child"
          "n \<in> set (all_nodes (parse_layers keep child ''adjust'' pi))"
      | (main) "\<exists>(k, child) \<in> set kids. n \<in> set (all_nodes (parse_layers keep child k (Some name)))"
      by blast
    then show ?thesis
    proof cases
      case self
      then show ?thesis using module_self_in_all_modules [of ?m] by blast
    next
      case adj
      from adj(1) have "(''adjust'', child) \<in> set kids"
        using map_of_SomeD by fastforce
      with adj(2) show ?thesis using IH by blast
    next
      case main
      then show ?thesis using IH by blast
    qed
  qed
qed

subsection \<open>Ordered dictionaries, the attribute loop and the parameter comprehension\<close>

lemma dict_set_keys:
  "map fst (dict_set k v d) = (if k \<in> fst ` set d then map fst d else map fst d @ [k])"
  by (induction k v d rule: dict_set.induct) auto

lemma dict_set_key_set: "fst ` set (dict_set k v d) = insert k (fst ` set d)"
  by (induction k v d rule: dict_set.induct) (simp_all add: insert_commute)

lemma map_of_dict_set: "map_of (dict_set k v d) = (map_of d)(k \<mapsto> v)"
  by (induction d) auto

lemma dict_set_fresh: "k \<notin> fst ` set d \<Longrightarrow> dict_set k v d = d @ [(k, v)]"
  by (induction d) auto

lemma first_occurrences_seen:
  assumes "set seen = set seen'"
  shows "first_occurrences seen xs = first_occurrences seen' xs"
  using assms
proof (induction xs arbitrary: seen seen')
  case Nil
  show ?case by simp
next
  case (Cons x xs)
  have mem: "x \<in> set seen \<longleftrightarrow> x \<in> set seen'"
    by (simp add: Cons.prems)
  have "set (x # seen) = set (x # seen')"
    by (simp add: Cons.prems)
  then have a: "first_occurrences (x # seen) xs = first_occurrences (x # seen') xs"
    by (rule Cons.IH)
  have b: "first_occurrences seen xs = first_occurrences seen' xs"
    by (rule Cons.IH) (rule Cons.prems)
  show ?case by (simp only: first_occurrences.simps mem a b)
qed

lemma set_first_occurrences: "set (first_occurrences seen xs) = set xs - set seen"
  by (induction xs arbitrary: seen) auto

lemma distinct_first_occurrences: "distinct (first_occurrences seen xs)"
  by (induction xs arbitrary: seen) (auto simp: set_first_occurrences)

lemma first_occurrences_distinct:
  "distinct xs \<Longrightarrow> set xs \<inter> set seen = {} \<Longrightarrow> first_occurrences seen xs = xs"
  by (induction xs arbitrary: seen) auto

lemma attributes_loop_keys:
  "map fst (get_layer_attributes_loop layer xs acc) =
     map fst acc @ first_occurrences (map fst acc) (filter (hasattr layer) xs)"
proof (induction xs arbitrary: acc)
  case Nil
  then show ?case by simp
next
  case (Cons x xs)
  show ?case
  proof (cases "getattr layer x")
    case None
    then have "\<not> hasattr layer x" by (simp add: hasattr_def getattr_def)
    with None show ?thesis by (simp add: Cons.IH)
  next
    case (Some v)
    then have has: "hasattr layer x" by (simp add: hasattr_def getattr_def)
    show ?thesis
    proof (cases "x \<in> fst ` set acc")
      case True
      with Some has show ?thesis by (simp add: Cons.IH dict_set_keys)
    next
      case False
      have "first_occurrences (map fst acc @ [x]) (filter (hasattr layer) xs) =
            first_occurrences (x # map fst acc) (filter (hasattr layer) xs)"
        by (rule first_occurrences_seen) auto
      with False Some has show ?thesis by (simp add: Cons.IH dict_set_keys)
    qed
  qed
qed

lemma attributes_loop_map_of:
  "map_of (get_layer_attributes_loop layer xs acc) a =
     (if a \<in> set xs \<and> hasattr layer a then getattr layer a else map_of acc a)"
proof (induction xs arbitrary: acc)
  case Nil
  then show ?case by simp
next
  case (Cons x xs)
  show ?case
    by (cases "getattr layer x") (auto simp: Cons.IH map_of_dict_set hasattr_def getattr_def)
qed

lemma parameter_shapes_map_of:
  "map_of (parameter_shapes ps d) k =
     (case map_of (rev ps) k of Some t \<Rightarrow> Some (shape t) | None \<Rightarrow> map_of d k)"
proof (induction ps arbitrary: d)
  case Nil
  then show ?case by simp
next
  case (Cons p ps)
  obtain k' t where p: "p = (k', t)" by (cases p)
  show ?case
    by (simp add: p Cons.IH map_of_dict_set map_add_def split: option.splits)
qed

lemma parameter_shapes_keys:
  "fst ` set (parameter_shapes ps d) = fst ` set d \<union> fst ` set ps"
proof (induction ps arbitrary: d)
  case Nil
  then show ?case by simp
next
  case (Cons p ps)
  obtain k' t where p: "p = (k', t)" by (cases p)
  show ?case by (auto simp: p Cons.IH dict_set_key_set)
qed

lemma parameter_shapes_distinct:
  "distinct (map fst ps) \<Longrightarrow> fst ` set d \<inter> fst ` set ps = {} \<Longrightarrow>
     parameter_shapes ps d = d @ map (\<lambda>(k, t). (k, shape t)) ps"
proof (induction ps arbitrary: d)
  case Nil
  then show ?case by simp
next
  case (Cons p ps)
  obtain k' t where p: "p = (k', t)" by (cases p)
  from Cons.prems have fresh: "k' \<notin> fst ` set d" by (auto simp: p)
  have "parameter_shapes ps (d @ [(k', shape t)]) =
          (d @ [(k', shape t)]) @ map (\<lambda>(k, t). (k, shape t)) ps"
    using Cons.prems by (intro Cons.IH) (auto simp: p)
  then show ?case by (simp add: p dict_set_fresh [OF fresh])
qed

lemma map_of_rev_distinct:
  "distinct (map fst xs) \<Longrightarrow> map_of (rev xs) k = map_of xs k"
proof (induction xs)
  case Nil
  show ?case by simp
next
  case (Cons x xs)
  obtain a b where x: "x = (a, b)" by (cases x)
  from Cons.prems have fresh: "a \<notin> fst ` set xs" and d: "distinct (map fst xs)"
    by (simp_all add: x)
  have IH: "map_of (rev xs) k = map_of xs k" by (rule Cons.IH [OF d])
  show ?case
  proof (cases "k = a")
    case True
    with fresh have "map_of xs k = None" by (simp add: map_of_eq_None_iff)
    with IH True show ?thesis by (simp add: x map_add_def)
  next
    case False
    with IH show ?thesis by (simp add: x map_add_def split: option.splits)
  qed
qed

lemma attributes_parse_layers:
  "attributes (parse_layers keep m name pi) = get_layer_attributes keep m"
  by (cases "is_residual m") (simp_all add: parse_layers_residual parse_layers_plain)

lemma parameters_parse_layers:
  "parameters (parse_layers keep m name pi) = parameter_shapes (named_parameters m) []"
  by (cases "is_residual m") (simp_all add: parse_layers_residual parse_layers_plain)

subsection \<open>Evaluation at the examples\<close>

lemmas example_defs = example_linear_def example_adjust_def example_block_def example_simple_def

lemmas eval_simps = parse_layers.simps get_layer_info_def get_layer_attributes_def is_residual_def
  getattr_def hasattr_def input_source_of_def fusion_type_of_def main_branch_of_def



section \<open>Lemmas about the tagger and the constructor\<close>

declare lookup_init.simps [simp del] issubclass_Module.simps [simp del]
  subclass_of.simps [simp del] inherits_init.simps [simp del]

lemma issubclass_Module_length: "issubclass_Module tbl cls \<Longrightarrow> cls < length tbl"
  by (subst (asm) issubclass_Module.simps) (simp split: if_splits)

lemma decorator_ok:
  assumes "issubclass_Module tbl cls"
  shows "decorator fusion tbl cls =
    Inr (tbl[cls := (tbl ! cls)\<lparr> cls_init := Some (new_init (lookup_init tbl cls) fusion) \<rparr>], cls)"
  using assms by (simp add: decorator_def)

lemma table_after_ok:
  assumes "issubclass_Module tbl cls"
  shows "table_after fusion tbl cls =
    tbl[cls := (tbl ! cls)\<lparr> cls_init := Some (new_init (lookup_init tbl cls) fusion) \<rparr>]"
  by (simp add: table_after_def decorator_ok [OF assms])

lemma lookup_init_own:
  "i < length tbl \<Longrightarrow> cls_init (tbl ! i) = Some f \<Longrightarrow> lookup_init tbl i = f"
  by (subst lookup_init.simps) simp

lemma lookup_init_inherits:
  "inherits_init tbl i cls \<Longrightarrow> lookup_init tbl i = lookup_init tbl cls"
proof (induction tbl i cls rule: inherits_init.induct)
  case (1 tbl i cls)
  show ?case
  proof (cases "i = cls")
    case True
    then show ?thesis by simp
  next
    case False
    from "1.prems" False have len: "i < length tbl"
      and none: "cls_init (tbl ! i) = None"
      by (subst (asm) inherits_init.simps, simp split: if_splits option.splits)+
    from "1.prems" False len none obtain j where base: "cls_base (tbl ! i) = UserClass j"
      and lt: "j < i" and inh: "inherits_init tbl j cls"
      by (subst (asm) inherits_init.simps) (simp split: if_splits base_class.splits)
    have "lookup_init tbl j = lookup_init tbl cls"
      using "1.IH" [OF False len none base lt inh] .
    moreover have "lookup_init tbl i = lookup_init tbl j"
      by (subst lookup_init.simps) (simp add: len none base lt)
    ultimately show ?thesis by simp
  qed
qed

lemma new_init_result:
  "new_init original_init fusion args self =
     (case original_init args self of
        Inl e \<Rightarrow> Inl e
      | Inr self' \<Rightarrow>
          Inr (Module (class_name self')
                 (dict_set ''fusion_type'' (PStr fusion)
                    (dict_set ''residual'' (PBool True) (attr_dict self')))
                 (named_parameters self') (named_children self')))"
proof (cases "original_init args self")
  case (Inl e)
  then show ?thesis by (simp add: new_init_def)
next
  case (Inr self')
  then show ?thesis by (cases self') (simp add: new_init_def)
qed

lemma example_issubclass:
  "issubclass_Module example_classes 0" "\<not> issubclass_Module example_classes 1"
  by (subst issubclass_Module.simps, simp add: example_classes_def)+

lemma example_table_after:
  "table_after ''concat'' example_classes 0 =
     [\<lparr> cls_name = ''Block'', cls_base = NNModule,
        cls_init = Some (new_init (lookup_init example_classes 0) ''concat'') \<rparr>,
      \<lparr> cls_name = ''Helper'', cls_base = Object, cls_init = None \<rparr>]"
  by (subst table_after_ok [OF example_issubclass(1)]) (simp add: example_classes_def)

lemma example_lookup_init: "lookup_init example_classes 0 = example_init"
  by (rule lookup_init_own) (simp_all add: example_classes_def)

lemma keep_field_subscript:
  "(\<exists>table. subscript config ''attributes'' = Inr table \<and> subscript table ''keep'' = Inr keep)
     \<longleftrightarrow> keep_field config = Some keep"
proof (cases config)
  case (TTable kvs)
  show ?thesis
  proof (cases "map_of kvs ''attributes''")
    case None
    then show ?thesis by (simp add: TTable)
  next
    case (Some v)
    then show ?thesis
      by (cases v) (simp_all add: TTable split: option.splits)
  qed
qed simp_all

lemma ModelParser_init_Inr:
  "ModelParser_init open_rb tomllib_load config_path = Inr parser \<longleftrightarrow>
     (\<exists>f config. open_rb config_path = Inr f \<and> tomllib_load f = Inr config
        \<and> keep_field config = Some (attributes_keep parser))"
proof -
  have "ModelParser_init open_rb tomllib_load config_path = Inr parser \<longleftrightarrow>
     (\<exists>f config table. open_rb config_path = Inr f \<and> tomllib_load f = Inr config
        \<and> subscript config ''attributes'' = Inr table
        \<and> subscript table ''keep'' = Inr (attributes_keep parser))"
    by (cases parser) (auto simp: ModelParser_init_def split: sum.splits)
  also have "\<dots> \<longleftrightarrow> (\<exists>f config. open_rb config_path = Inr f \<and> tomllib_load f = Inr config
        \<and> keep_field config = Some (attributes_keep parser))"
    using keep_field_subscript by blast
  finally show ?thesis .
qed

section \<open>Claims\<close>

text \<open>
  C1 (as amended). For a module whose residual marker is present and truthy, every main-branch
  child is parsed with the module's own name (the one its parent gave it) as parent context;
  the child named \<open>adjust\<close>, if present, is parsed with the parent context the module itself
  received (not with the module's name); \<open>residual_connection.input_source\<close> is the parent
  context the module received, and the sentinel \<open>block_input\<close> when none was supplied or it is
  the empty string.
\<close>

theorem C1_residual_parent_context:
  assumes "is_residual m"
  shows "children (parse_layers keep m name parent_input) =
           map (\<lambda>(child_name, child). parse_layers keep child child_name (Some name))
               (main_branch_of (named_children m))
       \<and> (\<exists>rc. residual_connection (parse_layers keep m name parent_input) = Some rc
             \<and> adjust_layer rc =
                 map_option (\<lambda>child. parse_layers keep child ''adjust'' parent_input)
                            (map_of (rev (named_children m)) ''adjust'')
             \<and> input_source rc =
                 (case parent_input of
                    None \<Rightarrow> ''block_input''
                  | Some s \<Rightarrow> if s = [] then ''block_input'' else s))"
  by (simp add: parse_layers_residual [OF assms] input_source_of_def)


text \<open>The theorem at a block named \<open>layer1\<close> under \<open>root\<close>.\<close>

theorem C1_residual_parent_context_witness:
  "is_residual example_block
   \<and> children (parse_layers [] example_block ''layer1'' (Some ''root'')) =
       [parse_layers [] (example_linear 10 10) ''main1'' (Some ''layer1''),
        parse_layers [] (example_linear 10 10) ''main2'' (Some ''layer1'')]
   \<and> map_option adjust_layer (residual_connection (parse_layers [] example_block ''layer1'' (Some ''root''))) =
       Some (Some (parse_layers [] example_adjust ''adjust'' (Some ''root'')))
   \<and> map_option input_source (residual_connection (parse_layers [] example_block ''layer1'' (Some ''root''))) =
       Some ''root''"
proof -
  have r: "is_residual example_block"
    by (simp add: is_residual_def getattr_def example_block_def)
  have kids: "named_children example_block =
      [(''main1'', example_linear 10 10), (''adjust'', example_adjust),
       (''main2'', example_linear 10 10)]"
    by (simp add: example_block_def)
  from C1_residual_parent_context [OF r, of "[]" "''layer1''" "Some ''root''"]
  show ?thesis
    using r by (auto simp: kids main_branch_of_def)
qed


text \<open>
  C1 as stated fails: at the root (no parent context) the tagged \<open>adjust\<close> child of the
  example block is parsed with no parent context, so it reports \<open>block_input\<close>, where parsing
  it with the block's name \<open>root\<close> would report \<open>root\<close>; and an empty parent context does
  not become the \<open>input_source\<close>.
\<close>

theorem C1_counterexample:
  "map_option adjust_layer (residual_connection (parse_layers [] example_block ''root'' None)) =
     Some (Some (parse_layers [] example_adjust ''adjust'' None))
   \<and> parse_layers [] example_adjust ''adjust'' None \<noteq>
       parse_layers [] example_adjust ''adjust'' (Some ''root'')
   \<and> map_option input_source
        (residual_connection (parse_layers [] example_adjust ''adjust'' None)) = Some ''block_input''
   \<and> map_option input_source
        (residual_connection (parse_layers [] example_adjust ''adjust'' (Some ''root''))) = Some ''root''
   \<and> map_option input_source
        (residual_connection (parse_layers [] example_block ''layer1'' (Some ''''))) \<noteq> Some ''''"
  by (simp add: example_defs eval_simps)

text \<open>
  C2. For a module with a truthy residual marker the direct children are partitioned: the
  child named \<open>adjust\<close> is parsed into \<open>residual_connection.adjust_layer\<close> and is not among
  \<open>children\<close>; all other children become \<open>children\<close>, in declared order. Without an
  \<open>adjust\<close> child, \<open>adjust_layer\<close> is null and \<open>children\<close> holds every child. A residual
  module without main-branch children still has \<open>is_residual_block\<close> true and no children.
  (Child names are the keys of a dictionary, so they are distinct; were a name to repeat, the
  last \<open>adjust\<close> child would be the one kept.)
\<close>

theorem C2_residual_partition:
  assumes "is_residual m"
  shows "is_residual_block (parse_layers keep m name parent_input)
       \<and> children (parse_layers keep m name parent_input) =
           map (\<lambda>(child_name, child). parse_layers keep child child_name (Some name))
               (main_branch_of (named_children m))
       \<and> map layer_name (children (parse_layers keep m name parent_input)) =
           filter (\<lambda>child_name. child_name \<noteq> ''adjust'') (map fst (named_children m))
       \<and> (\<exists>rc. residual_connection (parse_layers keep m name parent_input) = Some rc
             \<and> (adjust_layer rc = None \<longleftrightarrow> ''adjust'' \<notin> fst ` set (named_children m))
             \<and> (\<forall>node. adjust_layer rc = Some node \<longrightarrow>
                   layer_name node = ''adjust''
                   \<and> (\<exists>child. (''adjust'', child) \<in> set (named_children m)
                         \<and> node = parse_layers keep child ''adjust'' parent_input))
             \<and> (distinct (map fst (named_children m)) \<longrightarrow>
                   adjust_layer rc =
                     map_option (\<lambda>child. parse_layers keep child ''adjust'' parent_input)
                                (map_of (named_children m) ''adjust'')))
       \<and> (''adjust'' \<notin> fst ` set (named_children m) \<longrightarrow>
             children (parse_layers keep m name parent_input) =
               map (\<lambda>(child_name, child). parse_layers keep child child_name (Some name))
                   (named_children m))
       \<and> (main_branch_of (named_children m) = [] \<longrightarrow>
             is_residual_block (parse_layers keep m name parent_input)
             \<and> children (parse_layers keep m name parent_input) = [])"
proof -
  let ?kids = "named_children m"
  let ?node = "parse_layers keep m name parent_input"
  note eq = parse_layers_residual [OF assms, of keep name parent_input]
  have names: "map layer_name (children ?node) =
      filter (\<lambda>child_name. child_name \<noteq> ''adjust'') (map fst ?kids)"
    by (simp add: eq main_branch_of_def filter_map layer_name_parse_layers
        comp_def case_prod_unfold)
  have none: "map_of (rev ?kids) ''adjust'' = None \<longleftrightarrow> ''adjust'' \<notin> fst ` set ?kids"
    by (simp add: map_of_eq_None_iff)
  have some: "\<And>child. map_of (rev ?kids) ''adjust'' = Some child \<Longrightarrow>
      (''adjust'', child) \<in> set ?kids"
    using map_of_SomeD by fastforce
  have dist: "distinct (map fst ?kids) \<Longrightarrow> map_of (rev ?kids) ''adjust'' = map_of ?kids ''adjust''"
    by (rule map_of_rev_distinct)
  have unaffected: "''adjust'' \<notin> fst ` set ?kids \<Longrightarrow> main_branch_of ?kids = ?kids"
    by (force simp: main_branch_of_def filter_id_conv)
  have c1: "is_residual_block ?node" by (simp add: eq)
  have c2: "children ?node =
      map (\<lambda>(child_name, child). parse_layers keep child child_name (Some name))
          (main_branch_of ?kids)"
    by (simp add: eq)
  obtain rc where rc: "residual_connection ?node = Some rc"
    and adj: "adjust_layer rc =
      map_option (\<lambda>child. parse_layers keep child ''adjust'' parent_input)
                 (map_of (rev ?kids) ''adjust'')"
    by (simp add: eq)
  have c4a: "adjust_layer rc = None \<longleftrightarrow> ''adjust'' \<notin> fst ` set ?kids"
    using none by (simp add: adj)
  have c4b: "\<forall>node. adjust_layer rc = Some node \<longrightarrow>
        layer_name node = ''adjust''
        \<and> (\<exists>child. (''adjust'', child) \<in> set ?kids
              \<and> node = parse_layers keep child ''adjust'' parent_input)"
  proof (intro allI impI)
    fix node
    assume "adjust_layer rc = Some node"
    then obtain child where ch: "map_of (rev ?kids) ''adjust'' = Some child"
      and node: "node = parse_layers keep child ''adjust'' parent_input"
      by (auto simp: adj)
    from some [OF ch] node
    show "layer_name node = ''adjust''
        \<and> (\<exists>child. (''adjust'', child) \<in> set ?kids
              \<and> node = parse_layers keep child ''adjust'' parent_input)"
      by (auto simp: layer_name_parse_layers)
  qed
  have c4c: "distinct (map fst ?kids) \<longrightarrow>
        adjust_layer rc =
          map_option (\<lambda>child. parse_layers keep child ''adjust'' parent_input)
                     (map_of ?kids ''adjust'')"
    using dist by (simp add: adj)
  have c5: "''adjust'' \<notin> fst ` set ?kids \<longrightarrow>
        children ?node =
          map (\<lambda>(child_name, child). parse_layers keep child child_name (Some name)) ?kids"
    using unaffected by (simp add: c2)
  have c6: "main_branch_of ?kids = [] \<longrightarrow> is_residual_block ?node \<and> children ?node = []"
    by (simp add: c1 c2)
  from rc c4a c4b c4c have c4:
    "\<exists>rc. residual_connection ?node = Some rc
       \<and> (adjust_layer rc = None \<longleftrightarrow> ''adjust'' \<notin> fst ` set ?kids)
       \<and> (\<forall>node. adjust_layer rc = Some node \<longrightarrow>
             layer_name node = ''adjust''
             \<and> (\<exists>child. (''adjust'', child) \<in> set ?kids
                   \<and> node = parse_layers keep child ''adjust'' parent_input))
       \<and> (distinct (map fst ?kids) \<longrightarrow>
             adjust_layer rc =
               map_option (\<lambda>child. parse_layers keep child ''adjust'' parent_input)
                          (map_of ?kids ''adjust''))"
    by - (rule exI [of _ rc], (rule conjI | assumption)+)
  from c1 c2 names c4 c5 c6 show ?thesis
    by - (rule conjI | assumption)+
qed

text \<open>The theorem at the example block, whose children are \<open>main1\<close>, \<open>adjust\<close>, \<open>main2\<close>.\<close>

theorem C2_residual_partition_witness:
  "is_residual example_block
   \<and> map layer_name (children (parse_layers [] example_block ''root'' None)) = [''main1'', ''main2'']
   \<and> children (parse_layers [] example_block ''root'' None) =
       [parse_layers [] (example_linear 10 10) ''main1'' (Some ''root''),
        parse_layers [] (example_linear 10 10) ''main2'' (Some ''root'')]
   \<and> distinct (map fst (named_children example_block))
   \<and> ''adjust'' \<in> fst ` set (named_children example_block)"
proof -
  have r: "is_residual example_block"
    by (simp add: is_residual_def getattr_def example_block_def)
  have kids: "named_children example_block =
      [(''main1'', example_linear 10 10), (''adjust'', example_adjust),
       (''main2'', example_linear 10 10)]"
    by (simp add: example_block_def)
  note C2 = C2_residual_partition [OF r, of "[]" "''root''" None]
  from C2 have a: "children (parse_layers [] example_block ''root'' None) =
      map (\<lambda>(child_name, child). parse_layers [] child child_name (Some ''root''))
          (main_branch_of (named_children example_block))"
    by (rule conjunct2 [THEN conjunct1])
  from C2 have b: "map layer_name (children (parse_layers [] example_block ''root'' None)) =
      filter (\<lambda>child_name. child_name \<noteq> ''adjust'') (map fst (named_children example_block))"
    by (rule conjunct2 [THEN conjunct2, THEN conjunct1])
  show ?thesis
    using r a b by (simp add: kids main_branch_of_def)
qed



text \<open>
  C4. The \<open>attributes\<close> of a node hold exactly the allow-listed names that the instance has,
  each with the instance's value; a name the instance lacks is no key at all; the keys come
  in the order of the allow-list (of first occurrences, should the list repeat a name).
\<close>

theorem C4_attributes_filter:
  "map_of (attributes (parse_layers keep m name parent_input)) a =
     (if a \<in> set keep then getattr m a else None)
   \<and> set (map fst (attributes (parse_layers keep m name parent_input))) =
       {a \<in> set keep. hasattr m a}
   \<and> distinct (map fst (attributes (parse_layers keep m name parent_input)))
   \<and> map fst (attributes (parse_layers keep m name parent_input)) =
       first_occurrences [] (filter (hasattr m) keep)
   \<and> (distinct keep \<longrightarrow>
         map fst (attributes (parse_layers keep m name parent_input)) = filter (hasattr m) keep)"
proof -
  let ?attrs = "attributes (parse_layers keep m name parent_input)"
  have eq: "?attrs = get_layer_attributes_loop m keep []"
    by (simp add: attributes_parse_layers get_layer_attributes_def)
  have keys: "map fst ?attrs = first_occurrences [] (filter (hasattr m) keep)"
    by (simp add: eq attributes_loop_keys)
  have c1: "map_of ?attrs a = (if a \<in> set keep then getattr m a else None)"
    by (simp add: eq attributes_loop_map_of hasattr_def getattr_def)
  have c2: "set (map fst ?attrs) = {a \<in> set keep. hasattr m a}"
    by (auto simp: keys set_first_occurrences)
  have c3: "distinct (map fst ?attrs)"
    by (simp only: keys distinct_first_occurrences)
  have c5: "distinct keep \<longrightarrow> map fst ?attrs = filter (hasattr m) keep"
    by (simp add: keys first_occurrences_distinct)
  from c1 c2 c3 keys c5 show ?thesis
    by - (rule conjI | assumption)+
qed

text \<open>The theorem at the plain example layer and an allow-list with a name it lacks.\<close>

theorem C4_attributes_filter_witness:
  "distinct [''in_features'', ''kernel_size'', ''out_features'']
   \<and> attributes (parse_layers [''in_features'', ''kernel_size'', ''out_features'']
        example_simple ''root'' None) =
       [(''in_features'', PInt 10), (''out_features'', PInt 20)]
   \<and> map fst (attributes (parse_layers [''in_features'', ''kernel_size'', ''out_features'']
        example_simple ''root'' None)) =
       filter (hasattr example_simple) [''in_features'', ''kernel_size'', ''out_features'']"
proof -
  have d: "distinct [''in_features'', ''kernel_size'', ''out_features'']" by simp
  from C4_attributes_filter [of "[''in_features'', ''kernel_size'', ''out_features'']"
      example_simple "''root''" None "''in_features''"]
  have "distinct [''in_features'', ''kernel_size'', ''out_features''] \<longrightarrow>
      map fst (attributes (parse_layers [''in_features'', ''kernel_size'', ''out_features'']
        example_simple ''root'' None)) =
      filter (hasattr example_simple) [''in_features'', ''kernel_size'', ''out_features'']"
    by (rule conjunct2 [THEN conjunct2, THEN conjunct2, THEN conjunct2])
  with d have "map fst (attributes (parse_layers [''in_features'', ''kernel_size'', ''out_features'']
        example_simple ''root'' None)) =
      filter (hasattr example_simple) [''in_features'', ''kernel_size'', ''out_features'']"
    by (rule rev_mp)
  moreover have "attributes (parse_layers [''in_features'', ''kernel_size'', ''out_features'']
        example_simple ''root'' None) =
       [(''in_features'', PInt 10), (''out_features'', PInt 20)]"
    by (simp add: example_defs eval_simps)
  ultimately show ?thesis using d by simp
qed

text \<open>
  C5. A parse call on a module returns the node of that module, named \<open>root\<close>. When the
  module is not a residual block, that node's \<open>children\<close> has one node per direct child, in
  declared order, each the parse of the child under the child's declared name; and the same
  holds at every node of the returned tree whose module is not a residual block, as it does
  for \<open>_parse_layers\<close> on any module that is not a residual block.
\<close>

theorem C5_root_and_plain_children:
  "(\<exists>node. parser_call keep (ModuleInstance model) = Inr node
      \<and> layer_name node = ''root''
      \<and> (\<not> is_residual model \<longrightarrow>
            children node =
              map (\<lambda>(child_name, child). parse_layers keep child child_name (Some ''root''))
                  (named_children model)
            \<and> length (children node) = length (named_children model)
            \<and> map layer_name (children node) = map fst (named_children model))
      \<and> (\<forall>n \<in> set (all_nodes node).
            \<exists>m' \<in> set (all_modules model). \<exists>name' parent_input'.
              n = parse_layers keep m' name' parent_input'
              \<and> layer_name n = name'
              \<and> (\<not> is_residual m' \<longrightarrow>
                    children n =
                      map (\<lambda>(child_name, child). parse_layers keep child child_name (Some name'))
                          (named_children m')
                    \<and> length (children n) = length (named_children m')
                    \<and> map layer_name (children n) = map fst (named_children m'))))
   \<and> (\<not> is_residual m \<longrightarrow>
         children (parse_layers keep m name parent_input) =
           map (\<lambda>(child_name, child). parse_layers keep child child_name (Some name))
               (named_children m)
         \<and> length (children (parse_layers keep m name parent_input)) = length (named_children m)
         \<and> map layer_name (children (parse_layers keep m name parent_input)) =
             map fst (named_children m)
         \<and> (\<forall>i < length (named_children m).
               children (parse_layers keep m name parent_input) ! i =
                 parse_layers keep (snd (named_children m ! i)) (fst (named_children m ! i))
                   (Some name)
               \<and> layer_name (children (parse_layers keep m name parent_input) ! i) =
                   fst (named_children m ! i)))"
proof -
  have plain: "\<And>m name parent_input. \<not> is_residual m \<Longrightarrow>
      children (parse_layers keep m name parent_input) =
        map (\<lambda>(child_name, child). parse_layers keep child child_name (Some name))
            (named_children m)
      \<and> length (children (parse_layers keep m name parent_input)) = length (named_children m)
      \<and> map layer_name (children (parse_layers keep m name parent_input)) =
          map fst (named_children m)"
  proof -
    fix m name parent_input
    assume p: "\<not> is_residual m"
    have ch: "children (parse_layers keep m name parent_input) =
        map (\<lambda>(child_name, child). parse_layers keep child child_name (Some name))
            (named_children m)"
      by (simp add: parse_layers_plain [OF p])
    have len: "length (children (parse_layers keep m name parent_input)) =
        length (named_children m)"
      by (simp add: ch)
    have names: "map layer_name (children (parse_layers keep m name parent_input)) =
        map fst (named_children m)"
      by (simp add: ch layer_name_parse_layers comp_def case_prod_unfold)
    from ch len names
    show "children (parse_layers keep m name parent_input) =
        map (\<lambda>(child_name, child). parse_layers keep child child_name (Some name))
            (named_children m)
      \<and> length (children (parse_layers keep m name parent_input)) = length (named_children m)
      \<and> map layer_name (children (parse_layers keep m name parent_input)) =
          map fst (named_children m)"
      by - (rule conjI | assumption)+
  qed
  let ?root = "parse_layers keep model ''root'' None"
  have call: "parser_call keep (ModuleInstance model) = Inr ?root" by simp
  have nm: "layer_name ?root = ''root''" by (rule layer_name_parse_layers)
  have top: "\<not> is_residual model \<longrightarrow>
      children ?root =
        map (\<lambda>(child_name, child). parse_layers keep child child_name (Some ''root''))
            (named_children model)
      \<and> length (children ?root) = length (named_children model)
      \<and> map layer_name (children ?root) = map fst (named_children model)"
    using plain [of model "''root''" None] by (rule impI)
  have tree: "\<forall>n \<in> set (all_nodes ?root).
      \<exists>m' \<in> set (all_modules model). \<exists>name' parent_input'.
        n = parse_layers keep m' name' parent_input'
        \<and> layer_name n = name'
        \<and> (\<not> is_residual m' \<longrightarrow>
              children n =
                map (\<lambda>(child_name, child). parse_layers keep child child_name (Some name'))
                    (named_children m')
              \<and> length (children n) = length (named_children m')
              \<and> map layer_name (children n) = map fst (named_children m'))"
  proof (rule ballI)
    fix n
    assume "n \<in> set (all_nodes ?root)"
    then obtain m' name' pi' where m': "m' \<in> set (all_modules model)"
      and n: "n = parse_layers keep m' name' pi'"
      using all_nodes_parse_layers by blast
    have a: "layer_name n = name'" by (simp add: n layer_name_parse_layers)
    have b: "\<not> is_residual m' \<longrightarrow>
        children n =
          map (\<lambda>(child_name, child). parse_layers keep child child_name (Some name'))
              (named_children m')
        \<and> length (children n) = length (named_children m')
        \<and> map layer_name (children n) = map fst (named_children m')"
      unfolding n using plain [of m' name' pi'] by (rule impI)
    from n a b have "n = parse_layers keep m' name' pi' \<and> layer_name n = name'
        \<and> (\<not> is_residual m' \<longrightarrow>
              children n =
                map (\<lambda>(child_name, child). parse_layers keep child child_name (Some name'))
                    (named_children m')
              \<and> length (children n) = length (named_children m')
              \<and> map layer_name (children n) = map fst (named_children m'))"
      by - (rule conjI | assumption)+
    then show "\<exists>m' \<in> set (all_modules model). \<exists>name' parent_input'.
        n = parse_layers keep m' name' parent_input'
        \<and> layer_name n = name'
        \<and> (\<not> is_residual m' \<longrightarrow>
              children n =
                map (\<lambda>(child_name, child). parse_layers keep child child_name (Some name'))
                    (named_children m')
              \<and> length (children n) = length (named_children m')
              \<and> map layer_name (children n) = map fst (named_children m'))"
      using m' by (intro bexI [of _ m'] exI [of _ name'] exI [of _ pi'])
  qed
  from call nm top tree have c1:
    "\<exists>node. parser_call keep (ModuleInstance model) = Inr node
      \<and> layer_name node = ''root''
      \<and> (\<not> is_residual model \<longrightarrow>
            children node =
              map (\<lambda>(child_name, child). parse_layers keep child child_name (Some ''root''))
                  (named_children model)
            \<and> length (children node) = length (named_children model)
            \<and> map layer_name (children node) = map fst (named_children model))
      \<and> (\<forall>n \<in> set (all_nodes node).
            \<exists>m' \<in> set (all_modules model). \<exists>name' parent_input'.
              n = parse_layers keep m' name' parent_input'
              \<and> layer_name n = name'
              \<and> (\<not> is_residual m' \<longrightarrow>
                    children n =
                      map (\<lambda>(child_name, child). parse_layers keep child child_name (Some name'))
                          (named_children m')
                    \<and> length (children n) = length (named_children m')
                    \<and> map layer_name (children n) = map fst (named_children m')))"
    by - (rule exI [of _ ?root], (rule conjI | assumption)+)
  have c2: "\<not> is_residual m \<longrightarrow>
         children (parse_layers keep m name parent_input) =
           map (\<lambda>(child_name, child). parse_layers keep child child_name (Some name))
               (named_children m)
         \<and> length (children (parse_layers keep m name parent_input)) = length (named_children m)
         \<and> map layer_name (children (parse_layers keep m name parent_input)) =
             map fst (named_children m)
         \<and> (\<forall>i < length (named_children m).
               children (parse_layers keep m name parent_input) ! i =
                 parse_layers keep (snd (named_children m ! i)) (fst (named_children m ! i))
                   (Some name)
               \<and> layer_name (children (parse_layers keep m name parent_input) ! i) =
                   fst (named_children m ! i))"
  proof (rule impI)
    assume p: "\<not> is_residual m"
    note P = plain [OF p, of name parent_input]
    from P have ch: "children (parse_layers keep m name parent_input) =
        map (\<lambda>(child_name, child). parse_layers keep child child_name (Some name))
            (named_children m)"
      by (rule conjunct1)
    have idx: "\<forall>i < length (named_children m).
        children (parse_layers keep m name parent_input) ! i =
          parse_layers keep (snd (named_children m ! i)) (fst (named_children m ! i)) (Some name)
        \<and> layer_name (children (parse_layers keep m name parent_input) ! i) =
            fst (named_children m ! i)"
      by (simp add: ch layer_name_parse_layers case_prod_unfold)
    from P idx show "children (parse_layers keep m name parent_input) =
           map (\<lambda>(child_name, child). parse_layers keep child child_name (Some name))
               (named_children m)
         \<and> length (children (parse_layers keep m name parent_input)) = length (named_children m)
         \<and> map layer_name (children (parse_layers keep m name parent_input)) =
             map fst (named_children m)
         \<and> (\<forall>i < length (named_children m).
               children (parse_layers keep m name parent_input) ! i =
                 parse_layers keep (snd (named_children m ! i)) (fst (named_children m ! i))
                   (Some name)
               \<and> layer_name (children (parse_layers keep m name parent_input) ! i) =
                   fst (named_children m ! i))"
      by (elim conjE) (intro conjI; assumption)
  qed
  from c1 c2 show ?thesis by (rule conjI)
qed

text \<open>The theorem at a plain network with three children, the second a residual block.\<close>

theorem C5_root_and_plain_children_witness:
  "\<not> is_residual example_net
   \<and> map_sum id layer_name (parser_call [] (ModuleInstance example_net)) = Inr ''root''
   \<and> map_sum id (length \<circ> children) (parser_call [] (ModuleInstance example_net)) = Inr 3
   \<and> map_sum id (map layer_name \<circ> children) (parser_call [] (ModuleInstance example_net)) =
       Inr [''stem'', ''layer1'', ''fc'']
   \<and> map_sum id children (parser_call [] (ModuleInstance example_net)) =
       Inr [parse_layers [] (example_linear 3 10) ''stem'' (Some ''root''),
            parse_layers [] example_block ''layer1'' (Some ''root''),
            parse_layers [] (example_linear 10 20) ''fc'' (Some ''root'')]"
proof -
  have plain: "\<not> is_residual example_net"
    by (simp add: is_residual_def getattr_def example_net_def)
  have kids: "named_children example_net =
      [(''stem'', example_linear 3 10), (''layer1'', example_block),
       (''fc'', example_linear 10 20)]"
    by (simp add: example_net_def)
  from C5_root_and_plain_children [of "[]" example_net example_net "''root''" None, THEN conjunct1]
  obtain node where call: "parser_call [] (ModuleInstance example_net) = Inr node"
    and nm: "layer_name node = ''root''"
    and top: "\<not> is_residual example_net \<longrightarrow>
      children node =
        map (\<lambda>(child_name, child). parse_layers [] child child_name (Some ''root''))
            (named_children example_net)
      \<and> length (children node) = length (named_children example_net)
      \<and> map layer_name (children node) = map fst (named_children example_net)"
    by (elim exE conjE)
  note T = top [THEN mp, OF plain]
  from T have ch: "children node =
        map (\<lambda>(child_name, child). parse_layers [] child child_name (Some ''root''))
            (named_children example_net)"
    by (rule conjunct1)
  have ch': "children node =
      [parse_layers [] (example_linear 3 10) ''stem'' (Some ''root''),
       parse_layers [] example_block ''layer1'' (Some ''root''),
       parse_layers [] (example_linear 10 20) ''fc'' (Some ''root'')]"
    by (simp add: ch kids)
  from call have node: "node = parse_layers [] example_net ''root'' None" by simp
  from ch' have chp: "children (parse_layers [] example_net ''root'' None) =
      [parse_layers [] (example_linear 3 10) ''stem'' (Some ''root''),
       parse_layers [] example_block ''layer1'' (Some ''root''),
       parse_layers [] (example_linear 10 20) ''fc'' (Some ''root'')]"
    by (simp only: node)
  show ?thesis
    using plain by (simp add: chp layer_name_parse_layers)
qed

text \<open>
  C9. The \<open>parameters\<close> of a node record the module's own direct parameters, each name with
  its shape, and nothing else: they do not depend on the module's children, and every node of
  the tree carries the parameter names of its own module.
\<close>

theorem C9_direct_parameters:
  "map_of (parameters (parse_layers keep m name parent_input)) k =
     map_option shape (map_of (rev (named_parameters m)) k)
   \<and> fst ` set (parameters (parse_layers keep m name parent_input)) =
       fst ` set (named_parameters m)
   \<and> (distinct (map fst (named_parameters m)) \<longrightarrow>
         parameters (parse_layers keep m name parent_input) =
           map (\<lambda>(k, t). (k, shape t)) (named_parameters m))
   \<and> parameters (parse_layers keep (Module c a ps kids) name parent_input) =
       parameters (parse_layers keep (Module c a ps []) name parent_input)
   \<and> (\<forall>n \<in> set (all_nodes (parse_layers keep m name parent_input)).
         \<exists>m' \<in> set (all_modules m). \<exists>name' parent_input'.
           n = parse_layers keep m' name' parent_input'
           \<and> fst ` set (parameters n) = fst ` set (named_parameters m'))"
proof (intro conjI impI ballI)
  show "map_of (parameters (parse_layers keep m name parent_input)) k =
      map_option shape (map_of (rev (named_parameters m)) k)"
    by (simp add: parameters_parse_layers parameter_shapes_map_of split: option.splits)
next
  show "fst ` set (parameters (parse_layers keep m name parent_input)) =
      fst ` set (named_parameters m)"
    by (simp add: parameters_parse_layers parameter_shapes_keys)
next
  assume "distinct (map fst (named_parameters m))"
  then show "parameters (parse_layers keep m name parent_input) =
      map (\<lambda>(k, t). (k, shape t)) (named_parameters m)"
    by (simp add: parameters_parse_layers parameter_shapes_distinct)
next
  show "parameters (parse_layers keep (Module c a ps kids) name parent_input) =
      parameters (parse_layers keep (Module c a ps []) name parent_input)"
    by (simp add: parameters_parse_layers)
next
  fix n
  assume "n \<in> set (all_nodes (parse_layers keep m name parent_input))"
  then obtain m' name' pi' where m': "m' \<in> set (all_modules m)"
    and n: "n = parse_layers keep m' name' pi'"
    using all_nodes_parse_layers by blast
  have "fst ` set (parameters n) = fst ` set (named_parameters m')"
    by (simp add: n parameters_parse_layers parameter_shapes_keys)
  with m' n show "\<exists>m' \<in> set (all_modules m). \<exists>name' parent_input'.
      n = parse_layers keep m' name' parent_input'
      \<and> fst ` set (parameters n) = fst ` set (named_parameters m')"
    by blast
qed

text \<open>The theorem at the plain example layer: the weight and bias of \<open>fc\<close> are on the node
  of \<open>fc\<close>, and the root's node has no parameters.\<close>

theorem C9_direct_parameters_witness:
  "distinct (map fst (named_parameters (example_linear 10 20)))
   \<and> parameters (parse_layers [] (example_linear 10 20) ''fc'' (Some ''root'')) =
       [(''weight'', [20, 10]), (''bias'', [20])]
   \<and> parameters (parse_layers [] example_simple ''root'' None) = []
   \<and> parse_layers [] (example_linear 10 20) ''fc'' (Some ''root'')
       \<in> set (all_nodes (parse_layers [] example_simple ''root'' None))"
proof -
  have d: "distinct (map fst (named_parameters (example_linear 10 20)))"
    by (simp add: example_linear_def)
  have d': "distinct (map fst (named_parameters example_simple))"
    by (simp add: example_simple_def)
  have a: "parameters (parse_layers [] (example_linear 10 20) ''fc'' (Some ''root'')) =
      map (\<lambda>(k, t). (k, shape t)) (named_parameters (example_linear 10 20))"
    by (rule C9_direct_parameters [of "[]" "example_linear 10 20" "''fc''" "Some ''root''",
          THEN conjunct2, THEN conjunct2, THEN conjunct1, THEN mp, OF d])
  have b: "parameters (parse_layers [] example_simple ''root'' None) =
      map (\<lambda>(k, t). (k, shape t)) (named_parameters example_simple)"
    by (rule C9_direct_parameters [of "[]" example_simple "''root''" None,
          THEN conjunct2, THEN conjunct2, THEN conjunct1, THEN mp, OF d'])
  have mem: "parse_layers [] (example_linear 10 20) ''fc'' (Some ''root'')
       \<in> set (all_nodes (parse_layers [] example_simple ''root'' None))"
    by (simp add: example_defs eval_simps)
  have a': "parameters (parse_layers [] (example_linear 10 20) ''fc'' (Some ''root'')) =
      [(''weight'', [20, 10]), (''bias'', [20])]"
    unfolding a by (simp add: example_linear_def)
  have b': "parameters (parse_layers [] example_simple ''root'' None) = []"
    unfolding b by (simp add: example_simple_def)
  from d a' b' mem show ?thesis
    by - (rule conjI | assumption)+
qed

text \<open>
  C10. A residual module parsed with the empty string as parent context reports the sentinel
  \<open>block_input\<close> as \<open>input_source\<close>, not the empty string, as it does with no parent context.
\<close>

theorem C10_falsy_parent_input:
  assumes "is_residual m"
  shows "map_option input_source (residual_connection (parse_layers keep m name (Some ''''))) =
           Some ''block_input''
       \<and> map_option input_source (residual_connection (parse_layers keep m name (Some ''''))) \<noteq>
           Some ''''
       \<and> map_option input_source (residual_connection (parse_layers keep m name None)) =
           Some ''block_input''"
  by (simp add: parse_layers_residual [OF assms] input_source_of_def)

text \<open>The theorem at the example block.\<close>

theorem C10_falsy_parent_input_witness:
  "is_residual example_block
   \<and> map_option input_source (residual_connection (parse_layers [] example_block ''layer1'' (Some ''''))) =
       Some ''block_input''"
proof -
  have r: "is_residual example_block"
    by (simp add: is_residual_def getattr_def example_block_def)
  from C10_falsy_parent_input [OF r, of "[]" "''layer1''"] r show ?thesis by simp
qed

text \<open>
  C6 (as amended). Applying the tagger with label \<open>L\<close> to a module class returns the same
  class object, modified in place: of the table only that class's entry changes, and of the
  entry only the constructor. From then on every instantiation that runs this class's
  constructor sets \<open>residual = True\<close> and \<open>fusion_type = L\<close> on the instance, right after the
  original constructor has returned (and not at all when it raises), once per run, leaving
  everything else on the instance as the original constructor left it. That covers the class
  itself, a subclass that inherits the constructor, and a subclass whose own constructor
  calls it. A subclass whose own constructor never calls it is not covered.
\<close>

theorem C6_tagger:
  assumes "issubclass_Module tbl cls"
  shows "(\<exists>tbl'. residual_block fusion tbl cls = Inr (tbl', cls)
            \<and> tbl' = table_after fusion tbl cls
            \<and> length tbl' = length tbl
            \<and> (\<forall>i. i \<noteq> cls \<longrightarrow> tbl' ! i = tbl ! i)
            \<and> cls_name (tbl' ! cls) = cls_name (tbl ! cls)
            \<and> cls_base (tbl' ! cls) = cls_base (tbl ! cls))
       \<and> instantiate (table_after fusion tbl cls) cls args =
           (case instantiate tbl cls args of
              Inl e \<Rightarrow> Inl e
            | Inr self \<Rightarrow>
                Inr (Module (class_name self)
                       (dict_set ''fusion_type'' (PStr fusion)
                          (dict_set ''residual'' (PBool True) (attr_dict self)))
                       (named_parameters self) (named_children self)))
       \<and> (\<forall>self. instantiate (table_after fusion tbl cls) cls args = Inr self \<longrightarrow>
             getattr self ''residual'' = Some (PBool True)
             \<and> getattr self ''fusion_type'' = Some (PStr fusion))
       \<and> (\<forall>T sub. cls < length T \<and> T ! cls = table_after fusion tbl cls ! cls
               \<and> sub < length T \<and> inherits_init T sub cls \<longrightarrow>
             instantiate T sub args =
               new_init (lookup_init tbl cls) fusion args (Module (cls_name (T ! sub)) [] [] []))
       \<and> (\<forall>T sub before after. cls < length T \<and> T ! cls = table_after fusion tbl cls ! cls
               \<and> sub < length T
               \<and> cls_init (T ! sub) = Some (chained_init before (lookup_init T cls) after) \<longrightarrow>
             instantiate T sub args =
               chained_init before (new_init (lookup_init tbl cls) fusion) after args
                 (Module (cls_name (T ! sub)) [] [] []))"
proof -
  let ?new = "new_init (lookup_init tbl cls) fusion"
  let ?tbl' = "tbl[cls := (tbl ! cls)\<lparr> cls_init := Some ?new \<rparr>]"
  have len: "cls < length tbl" by (rule issubclass_Module_length [OF assms])
  have after: "table_after fusion tbl cls = ?tbl'" by (rule table_after_ok [OF assms])
  have entry: "?tbl' ! cls = (tbl ! cls)\<lparr> cls_init := Some ?new \<rparr>"
    using len by simp
  have look: "lookup_init ?tbl' cls = ?new"
    by (rule lookup_init_own) (simp_all add: len)
  have c1: "\<exists>tbl'. residual_block fusion tbl cls = Inr (tbl', cls)
            \<and> tbl' = table_after fusion tbl cls
            \<and> length tbl' = length tbl
            \<and> (\<forall>i. i \<noteq> cls \<longrightarrow> tbl' ! i = tbl ! i)
            \<and> cls_name (tbl' ! cls) = cls_name (tbl ! cls)
            \<and> cls_base (tbl' ! cls) = cls_base (tbl ! cls)"
    by (simp add: residual_block_def decorator_ok [OF assms] after entry)
  have inst': "instantiate (table_after fusion tbl cls) cls args =
      ?new args (Module (cls_name (tbl ! cls)) [] [] [])"
    by (simp add: instantiate_def after look len)
  have inst: "instantiate tbl cls args =
      lookup_init tbl cls args (Module (cls_name (tbl ! cls)) [] [] [])"
    by (simp add: instantiate_def len)
  have c2: "instantiate (table_after fusion tbl cls) cls args =
           (case instantiate tbl cls args of
              Inl e \<Rightarrow> Inl e
            | Inr self \<Rightarrow>
                Inr (Module (class_name self)
                       (dict_set ''fusion_type'' (PStr fusion)
                          (dict_set ''residual'' (PBool True) (attr_dict self)))
                       (named_parameters self) (named_children self)))"
    by (simp only: inst' inst new_init_result)
  have c3: "\<forall>self. instantiate (table_after fusion tbl cls) cls args = Inr self \<longrightarrow>
             getattr self ''residual'' = Some (PBool True)
             \<and> getattr self ''fusion_type'' = Some (PStr fusion)"
    by (auto simp: c2 getattr_def map_of_dict_set split: sum.splits)
  have c4: "\<forall>T sub. cls < length T \<and> T ! cls = table_after fusion tbl cls ! cls
               \<and> sub < length T \<and> inherits_init T sub cls \<longrightarrow>
             instantiate T sub args = ?new args (Module (cls_name (T ! sub)) [] [] [])"
  proof (intro allI impI)
    fix T sub
    assume h: "cls < length T \<and> T ! cls = table_after fusion tbl cls ! cls
               \<and> sub < length T \<and> inherits_init T sub cls"
    then have "lookup_init T cls = ?new"
      by (intro lookup_init_own) (simp_all add: after entry)
    moreover from h have "lookup_init T sub = lookup_init T cls"
      by (intro lookup_init_inherits) simp
    ultimately show "instantiate T sub args = ?new args (Module (cls_name (T ! sub)) [] [] [])"
      using h by (simp add: instantiate_def)
  qed
  have c5: "\<forall>T sub before after. cls < length T \<and> T ! cls = table_after fusion tbl cls ! cls
               \<and> sub < length T
               \<and> cls_init (T ! sub) = Some (chained_init before (lookup_init T cls) after) \<longrightarrow>
             instantiate T sub args =
               chained_init before ?new after args (Module (cls_name (T ! sub)) [] [] [])"
  proof (intro allI impI)
    fix T sub before after
    assume h: "cls < length T \<and> T ! cls = table_after fusion tbl cls ! cls
               \<and> sub < length T
               \<and> cls_init (T ! sub) = Some (chained_init before (lookup_init T cls) after)"
    then have a: "lookup_init T cls = ?new"
      by (intro lookup_init_own) (simp_all add: after entry)
    from h have "lookup_init T sub = chained_init before (lookup_init T cls) after"
      by (intro lookup_init_own) simp_all
    with a h show "instantiate T sub args =
        chained_init before ?new after args (Module (cls_name (T ! sub)) [] [] [])"
      by (simp add: instantiate_def)
  qed
  from c1 c2 c3 c4 c5 show ?thesis
    by - (rule conjI | assumption)+
qed

text \<open>The theorem at the example class \<open>Block\<close> tagged with \<open>concat\<close>, and at its subclass
  \<open>Bottleneck\<close>, which inherits the constructor.\<close>

theorem C6_tagger_witness:
  "issubclass_Module example_classes 0
   \<and> map_sum id snd (residual_block ''concat'' example_classes 0) = Inr 0
   \<and> instantiate example_classes 0 [] = Inr (Module ''Block'' [(''in_features'', PInt 10)] [] [])
   \<and> instantiate (table_after ''concat'' example_classes 0) 0 [] =
       Inr (Module ''Block''
              [(''in_features'', PInt 10), (''residual'', PBool True),
               (''fusion_type'', PStr ''concat'')] [] [])
   \<and> instantiate example_tagged 2 [] =
       Inr (Module ''Bottleneck''
              [(''in_features'', PInt 10), (''residual'', PBool True),
               (''fusion_type'', PStr ''concat'')] [] [])"
proof -
  note sub = example_issubclass(1)
  note C6 = C6_tagger [OF sub, of "''concat''" "[]"]
  have orig: "instantiate example_classes 0 [] =
      Inr (Module ''Block'' [(''in_features'', PInt 10)] [] [])"
    by (simp add: instantiate_def example_lookup_init example_init_def)
       (simp add: example_classes_def)
  from C6 obtain tbl' where "residual_block ''concat'' example_classes 0 = Inr (tbl', 0)"
    by (elim conjE exE)
  then have ret: "map_sum id snd (residual_block ''concat'' example_classes 0) = Inr 0"
    by simp
  from C6 have "instantiate (table_after ''concat'' example_classes 0) 0 [] =
      (case instantiate example_classes 0 [] of
         Inl e \<Rightarrow> Inl e
       | Inr self \<Rightarrow>
           Inr (Module (class_name self)
                  (dict_set ''fusion_type'' (PStr ''concat'')
                     (dict_set ''residual'' (PBool True) (attr_dict self)))
                  (named_parameters self) (named_children self)))"
    by (rule conjunct2 [THEN conjunct1])
  then have own: "instantiate (table_after ''concat'' example_classes 0) 0 [] =
      Inr (Module ''Block''
             [(''in_features'', PInt 10), (''residual'', PBool True),
              (''fusion_type'', PStr ''concat'')] [] [])"
    by (simp add: orig)
  have inh: "inherits_init example_tagged 2 0"
    by (subst inherits_init.simps, simp add: example_tagged_def example_table_after,
        subst inherits_init.simps, simp)
  from C6 have "\<forall>T sub. 0 < length T \<and> T ! 0 = table_after ''concat'' example_classes 0 ! 0
               \<and> sub < length T \<and> inherits_init T sub 0 \<longrightarrow>
             instantiate T sub [] =
               new_init (lookup_init example_classes 0) ''concat'' []
                 (Module (cls_name (T ! sub)) [] [] [])"
    by (rule conjunct2 [THEN conjunct2, THEN conjunct2, THEN conjunct1])
  from this [rule_format, of example_tagged 2] inh
  have "instantiate example_tagged 2 [] =
      new_init (lookup_init example_classes 0) ''concat'' []
        (Module (cls_name (example_tagged ! 2)) [] [] [])"
    by (simp add: example_tagged_def example_table_after)
  then have subcls: "instantiate example_tagged 2 [] =
      Inr (Module ''Bottleneck''
             [(''in_features'', PInt 10), (''residual'', PBool True),
              (''fusion_type'', PStr ''concat'')] [] [])"
    by (simp add: example_lookup_init new_init_def example_init_def example_tagged_def
        example_table_after)
  from sub ret orig own subcls show ?thesis
    by - (rule conjI | assumption)+
qed

text \<open>
  C6 as stated fails: \<open>Bare\<close> is a subclass of the tagged \<open>Block\<close> whose own constructor only
  calls the framework's; instantiating it sets neither field.
\<close>

theorem C6_counterexample:
  "issubclass_Module example_classes 0
   \<and> subclass_of example_tagged 3 0
   \<and> instantiate example_tagged 3 [] = Inr (Module ''Bare'' [] [] [])
   \<and> \<not> hasattr (Module ''Bare'' [] [] []) ''residual''
   \<and> \<not> hasattr (Module ''Bare'' [] [] []) ''fusion_type''"
proof -
  have a: "subclass_of example_tagged 3 0"
    by (subst subclass_of.simps, simp add: example_tagged_def example_table_after,
        subst subclass_of.simps, simp)
  have "lookup_init example_tagged 3 = builtin_init"
    by (rule lookup_init_own) (simp_all add: example_tagged_def example_table_after)
  then have b: "instantiate example_tagged 3 [] = Inr (Module ''Bare'' [] [] [])"
    by (simp add: instantiate_def builtin_init_def)
       (simp add: example_tagged_def example_table_after)
  have c: "\<not> hasattr (Module ''Bare'' [] [] []) ''residual''"
    and d: "\<not> hasattr (Module ''Bare'' [] [] []) ''fusion_type''"
    by (simp_all add: hasattr_def)
  from example_issubclass(1) a b c d show ?thesis
    by - (rule conjI | assumption)+
qed

text \<open>
  C7. The tagger applied to a class that is not a subclass of the module base type raises
  \<open>TypeError\<close> at decoration time and leaves the class table as it was; the parser called on
  an object that is not a module raises \<open>TypeError\<close>. Neither returns a result in that case,
  and these are the only errors either raises.
\<close>

theorem C7_type_mismatch:
  "(\<not> issubclass_Module tbl cls \<longrightarrow>
       residual_block fusion tbl cls = Inl TypeError \<and> table_after fusion tbl cls = tbl)
   \<and> (residual_block fusion tbl cls = Inl e \<longrightarrow> e = TypeError \<and> \<not> issubclass_Module tbl cls)
   \<and> parser_call keep (OtherObject v) = Inl TypeError
   \<and> (parser_call keep obj = Inl e \<longrightarrow> e = TypeError \<and> (\<exists>v. obj = OtherObject v))
   \<and> (parser_call keep obj = Inr node \<longrightarrow> (\<exists>model. obj = ModuleInstance model))"
proof (intro conjI impI)
  assume "\<not> issubclass_Module tbl cls"
  then show "residual_block fusion tbl cls = Inl TypeError"
    and "table_after fusion tbl cls = tbl"
    by (simp_all add: residual_block_def decorator_def table_after_def)
next
  assume "residual_block fusion tbl cls = Inl e"
  then show "e = TypeError" and "\<not> issubclass_Module tbl cls"
    by (auto simp: residual_block_def decorator_def Let_def split: if_splits)
next
  show "parser_call keep (OtherObject v) = Inl TypeError" by simp
next
  assume "parser_call keep obj = Inl e"
  then show "e = TypeError" and "\<exists>v. obj = OtherObject v"
    by (cases obj; simp)+
next
  assume "parser_call keep obj = Inr node"
  then show "\<exists>model. obj = ModuleInstance model"
    by (cases obj) simp_all
qed

text \<open>The theorem at the example class \<open>Helper\<close>, which derives from \<open>object\<close>, and at a
  string passed to the parser.\<close>

theorem C7_type_mismatch_witness:
  "\<not> issubclass_Module example_classes 1
   \<and> residual_block ''add'' example_classes 1 = Inl TypeError
   \<and> table_after ''add'' example_classes 1 = example_classes
   \<and> parser_call [] (OtherObject (PStr ''model'')) = Inl TypeError"
proof -
  note n = example_issubclass(2)
  from C7_type_mismatch [of example_classes 1 "''add''" TypeError "[]" "PStr ''model''",
      THEN conjunct1, THEN mp, OF n]
  have a: "residual_block ''add'' example_classes 1 = Inl TypeError
      \<and> table_after ''add'' example_classes 1 = example_classes" .
  have b: "parser_call [] (OtherObject (PStr ''model'')) = Inl TypeError" by simp
  from a have a1: "residual_block ''add'' example_classes 1 = Inl TypeError"
    and a2: "table_after ''add'' example_classes 1 = example_classes"
    by (rule conjunct1, rule conjunct2)
  from n a1 a2 b show ?thesis
    by - (rule conjI | assumption)+
qed

text \<open>
  C8. The constructor raises, and returns no parser, when the configuration file cannot be
  opened, when it cannot be parsed, and when the parsed document has no \<open>keep\<close> field in an
  \<open>attributes\<close> table; otherwise it returns a parser whose only field is that \<open>keep\<close> value.
\<close>

theorem C8_parser_construction:
  "(open_rb config_path = Inl e \<longrightarrow>
       ModelParser_init open_rb tomllib_load config_path = Inl e)
   \<and> (open_rb config_path = Inr f \<and> tomllib_load f = Inl e \<longrightarrow>
         ModelParser_init open_rb tomllib_load config_path = Inl e)
   \<and> (open_rb config_path = Inr f \<and> tomllib_load f = Inr config \<and> keep_field config = None \<longrightarrow>
         ModelParser_init open_rb tomllib_load config_path = Inl KeyError
         \<or> ModelParser_init open_rb tomllib_load config_path = Inl TypeError)
   \<and> (open_rb config_path = Inr f \<and> tomllib_load f = Inr config
         \<and> keep_field config = Some keep \<longrightarrow>
         ModelParser_init open_rb tomllib_load config_path = Inr \<lparr> attributes_keep = keep \<rparr>)
   \<and> (ModelParser_init open_rb tomllib_load config_path = Inr parser \<longleftrightarrow>
         (\<exists>f config. open_rb config_path = Inr f \<and> tomllib_load f = Inr config
            \<and> keep_field config = Some (attributes_keep parser)))"
proof (intro conjI impI)
  assume "open_rb config_path = Inl e"
  then show "ModelParser_init open_rb tomllib_load config_path = Inl e"
    by (simp add: ModelParser_init_def)
next
  assume "open_rb config_path = Inr f \<and> tomllib_load f = Inl e"
  then show "ModelParser_init open_rb tomllib_load config_path = Inl e"
    by (simp add: ModelParser_init_def)
next
  assume h: "open_rb config_path = Inr f \<and> tomllib_load f = Inr config \<and> keep_field config = None"
  have no: "\<And>table keep. subscript config ''attributes'' = Inr table \<Longrightarrow>
      subscript table ''keep'' \<noteq> Inr keep"
    using h keep_field_subscript [of config] by auto
  have err: "\<And>v key e. subscript v key = Inl e \<Longrightarrow> e = KeyError \<or> e = TypeError"
  proof -
    fix v key e
    assume "subscript v key = Inl e"
    then show "e = KeyError \<or> e = TypeError"
      by (cases v) (auto split: option.splits)
  qed
  show "ModelParser_init open_rb tomllib_load config_path = Inl KeyError
      \<or> ModelParser_init open_rb tomllib_load config_path = Inl TypeError"
  proof (cases "subscript config ''attributes''")
    case (Inl e')
    with h err [OF Inl] show ?thesis by (auto simp: ModelParser_init_def)
  next
    case (Inr table)
    show ?thesis
    proof (cases "subscript table ''keep''")
      case (Inl e')
      with h Inr err [OF Inl] show ?thesis by (auto simp: ModelParser_init_def)
    next
      case inner: (Inr keep)
      from inner no [OF Inr, of keep] show ?thesis by contradiction
    qed
  qed
next
  assume h: "open_rb config_path = Inr f \<and> tomllib_load f = Inr config
      \<and> keep_field config = Some keep"
  then have "ModelParser_init open_rb tomllib_load config_path = Inr \<lparr> attributes_keep = keep \<rparr> \<longleftrightarrow> True"
    by (subst ModelParser_init_Inr) auto
  then show "ModelParser_init open_rb tomllib_load config_path = Inr \<lparr> attributes_keep = keep \<rparr>"
    by simp
next
  show "ModelParser_init open_rb tomllib_load config_path = Inr parser \<longleftrightarrow>
      (\<exists>f config. open_rb config_path = Inr f \<and> tomllib_load f = Inr config
         \<and> keep_field config = Some (attributes_keep parser))"
    by (rule ModelParser_init_Inr)
qed

text \<open>The theorem at a missing file, a malformed one, an empty one and a well-formed one.\<close>

theorem C8_parser_construction_witness:
  "example_open_rb ''config/missing.toml'' = Inl OSError
   \<and> ModelParser_init example_open_rb example_tomllib_load ''config/missing.toml'' = Inl OSError
   \<and> example_open_rb ''config/broken.toml'' = Inr ''[attributes''
   \<and> example_tomllib_load ''[attributes'' = Inl TOMLDecodeError
   \<and> ModelParser_init example_open_rb example_tomllib_load ''config/broken.toml'' =
       Inl TOMLDecodeError
   \<and> example_open_rb ''config/empty.toml'' = Inr ''''
   \<and> example_tomllib_load '''' = Inr (TTable [])
   \<and> keep_field (TTable []) = None
   \<and> ModelParser_init example_open_rb example_tomllib_load ''config/empty.toml'' = Inl KeyError
   \<and> ModelParser_init example_open_rb example_tomllib_load ''config/model_parse.toml'' =
       Inr \<lparr> attributes_keep = TArray [TString ''in_features'', TString ''out_features''] \<rparr>"
proof -
  let ?init = "ModelParser_init example_open_rb example_tomllib_load"
  let ?doc = "TTable [(''attributes'',
      TTable [(''keep'', TArray [TString ''in_features'', TString ''out_features''])])]"
  let ?keep = "TArray [TString ''in_features'', TString ''out_features'']"
  have o1: "example_open_rb ''config/missing.toml'' = Inl OSError"
    by (simp add: example_open_rb_def)
  have o2: "example_open_rb ''config/broken.toml'' = Inr ''[attributes''"
    by (simp add: example_open_rb_def)
  have o3: "example_open_rb ''config/empty.toml'' = Inr ''''"
    by (simp add: example_open_rb_def)
  have o4: "example_open_rb ''config/model_parse.toml'' = Inr ''[attributes] keep = [...]''"
    by (simp add: example_open_rb_def)
  have l2: "example_tomllib_load ''[attributes'' = Inl TOMLDecodeError"
    by (simp add: example_tomllib_load_def)
  have l3: "example_tomllib_load '''' = Inr (TTable [])"
    by (simp add: example_tomllib_load_def)
  have l4: "example_tomllib_load ''[attributes] keep = [...]'' = Inr ?doc"
    by (simp add: example_tomllib_load_def)
  have k3: "keep_field (TTable []) = None" by simp
  have k4: "keep_field ?doc = Some ?keep" by simp
  have r1: "?init ''config/missing.toml'' = Inl OSError"
    by (rule C8_parser_construction [where open_rb = example_open_rb
          and tomllib_load = example_tomllib_load, THEN conjunct1, THEN mp, OF o1])
  have r2: "?init ''config/broken.toml'' = Inl TOMLDecodeError"
    by (rule C8_parser_construction [where open_rb = example_open_rb
          and tomllib_load = example_tomllib_load, THEN conjunct2, THEN conjunct1, THEN mp,
          OF conjI [OF o2 l2]])
  have "?init ''config/empty.toml'' = Inl KeyError \<or> ?init ''config/empty.toml'' = Inl TypeError"
    by (rule C8_parser_construction [where open_rb = example_open_rb
          and tomllib_load = example_tomllib_load, THEN conjunct2, THEN conjunct2,
          THEN conjunct1, THEN mp, OF conjI [OF o3 conjI [OF l3 k3]]])
  moreover have "?init ''config/empty.toml'' \<noteq> Inl TypeError"
    by (simp add: ModelParser_init_def o3 l3)
  ultimately have r3: "?init ''config/empty.toml'' = Inl KeyError" by simp
  have r4: "?init ''config/model_parse.toml'' = Inr \<lparr> attributes_keep = ?keep \<rparr>"
    by (rule C8_parser_construction [where open_rb = example_open_rb
          and tomllib_load = example_tomllib_load, THEN conjunct2, THEN conjunct2,
          THEN conjunct2, THEN conjunct1, THEN mp, OF conjI [OF o4 conjI [OF l4 k4]]])
  from o1 r1 o2 l2 r2 o3 l3 k3 r3 r4 show ?thesis
    by - (rule conjI | assumption)+
qed

end
